theory Spec2Isabelle
  imports Main "HOL-Library.Char_ord" "HOL-Library.List_Lexorder" "HOL-Library.Option_ord"
    "HOL-Library.Sublist"
begin

section \<open>USERTEG: the ingestion and persistence pipeline of userteg.py\<close>

text \<open>
  The development embeds the parts of \<^verbatim>\<open>src/userteg.py\<close> that hold state: the SQLite
  store behind \<^verbatim>\<open>DatabaseManager\<close>, the normaliser \<^verbatim>\<open>UserTegOSINT.process_message\<close>
  and the polling loop \<^verbatim>\<open>start_monitoring\<close>. Python exceptions are values of the type
  \<open>error\<close>; a function that can raise returns \<open>error + 'a\<close> with \<open>Inl\<close> for the exception.
  Text values are \<open>string\<close>s, a SQL \<^verbatim>\<open>NULL\<close> and an absent dictionary key are \<open>None\<close>.
  Integers are unbounded as in Python; Telegram identifiers fit SQLite's 64-bit
  \<^verbatim>\<open>INTEGER\<close>, so the binding's range check is not modelled.
\<close>

datatype error =
    AttributeError string
  | ConnectionError
  | JSONDecodeError
  | ValueError
  | StorageError

subsection \<open>The schema (\<^verbatim>\<open>_init_database\<close>, lines 469-545)\<close>

text \<open>
  One record per table, one field per column, in the order of the \<^verbatim>\<open>CREATE TABLE\<close>
  statements. A column is nullable unless it is an \<^verbatim>\<open>INTEGER PRIMARY KEY\<close> or the
  signature of \<^verbatim>\<open>store_message_data\<close> gives the value written to it a type without
  \<^verbatim>\<open>Optional\<close>. A table is the list of its rows in rowid order; for the two
  \<^verbatim>\<open>AUTOINCREMENT\<close> tables the surrogate \<^verbatim>\<open>id\<close> column is the position of the row in
  that list.
\<close>

record user_row =
  u_user_id :: int
  u_first_name :: "string option"
  u_last_name :: "string option"
  u_current_username :: "string option"
  u_is_bot :: "bool option"
  u_language_code :: "string option"
  u_first_seen :: "string option"
  u_last_seen :: "string option"

record history_row =
  h_user_id :: "int option"
  h_username :: "string option"
  h_changed_at :: "string option"

record message_row =
  m_message_id :: int
  m_chat_id :: int
  m_user_id :: int
  m_username :: "string option"
  m_first_name :: "string option"
  m_message_text :: string
  m_message_date :: string
  m_media_type :: "string option"
  m_forwarded_from :: "int option"
  m_reply_to_message_id :: "int option"

record chat_row =
  c_chat_id :: int
  c_chat_type :: "string option"
  c_title :: "string option"
  c_username :: "string option"
  c_description :: "string option"
  c_member_count :: "int option"
  c_first_seen :: "string option"
  c_last_updated :: "string option"

record activity_row =
  a_user_id :: "int option"
  a_chat_id :: "int option"
  a_chat_title :: "string option"
  a_status :: "string option"
  a_first_seen :: "string option"
  a_last_seen :: "string option"
  a_message_count :: "int option"

record db =
  users :: "user_row list"
  username_history :: "history_row list"
  messages :: "message_row list"
  chats :: "chat_row list"
  user_activity :: "activity_row list"

definition empty_db :: db where
  "empty_db = \<lparr>users = [], username_history = [], messages = [], chats = [], user_activity = []\<rparr>"

text \<open>
  \<^verbatim>\<open>_init_database\<close> issues five \<^verbatim>\<open>CREATE TABLE IF NOT EXISTS\<close> statements. The database
  file is \<open>None\<close> before the tables exist; on a file that already holds them nothing
  changes. \<^verbatim>\<open>DatabaseManager.__init__\<close> calls it, so every other method runs on a \<open>db\<close>.
\<close>

definition init_database :: "db option \<Rightarrow> db" where
  "init_database file = (case file of None \<Rightarrow> empty_db | Some d \<Rightarrow> d)"

subsection \<open>\<^verbatim>\<open>store_message_data\<close> (lines 547-563)\<close>

text \<open>
  \<^verbatim>\<open>INSERT OR REPLACE INTO messages\<close>: SQLite first deletes every row that conflicts with
  the new one on the primary key \<^verbatim>\<open>(message_id, chat_id)\<close>, then inserts the new row.
  The ten parameters of the method are the ten fields of a \<open>message_row\<close>.
\<close>

definition message_key :: "message_row \<Rightarrow> int \<times> int" where
  "message_key r = (m_message_id r, m_chat_id r)"

definition store_message_data :: "message_row \<Rightarrow> db \<Rightarrow> db" where
  "store_message_data r d =
     d\<lparr>messages := filter (\<lambda>x. message_key x \<noteq> message_key r) (messages d) @ [r]\<rparr>"

definition rows_with_key :: "int \<times> int \<Rightarrow> db \<Rightarrow> message_row list" where
  "rows_with_key k d = filter (\<lambda>x. message_key x = k) (messages d)"

subsection \<open>Telegram objects\<close>

text \<open>
  An update is the JSON object that \<^verbatim>\<open>getUpdates\<close> delivers, a Python \<^verbatim>\<open>dict\<close>. The model
  gives every key the code reads the type the Bot API gives it; an absent key is \<open>None\<close>,
  which is also what \<^verbatim>\<open>dict.get\<close> returns for it. The fields \<open>photo\<close>, \<open>video\<close> and
  \<open>document\<close> say whether the key is in the dictionary (the code only tests
  \<^verbatim>\<open>'photo' in message\<close>, never reads the value).
\<close>

record tg_user =
  usr_id :: "int option"
  usr_is_bot :: "bool option"
  usr_first_name :: "string option"
  usr_last_name :: "string option"
  usr_username :: "string option"
  usr_language_code :: "string option"

record tg_chat =
  cht_id :: "int option"
  cht_type :: "string option"
  cht_title :: "string option"
  cht_username :: "string option"

datatype message = Message
  (message_id: "int option")
  (chat: "tg_chat option")
  (from_user: "tg_user option")
  (date: "int option")
  (msg_text: "string option")
  (photo: bool)
  (video: bool)
  (document: bool)
  (forward_from: "tg_user option")
  (reply_to_message: "message option")

record update =
  upd_id :: int
  upd_message :: "message option"

text \<open>The empty dictionary \<^verbatim>\<open>{}\<close> that \<^verbatim>\<open>message.get('chat', {})\<close> falls back to.\<close>

definition empty_chat :: tg_chat where
  "empty_chat = \<lparr>cht_id = None, cht_type = None, cht_title = None, cht_username = None\<rparr>"

definition empty_user :: tg_user where
  "empty_user = \<lparr>usr_id = None, usr_is_bot = None, usr_first_name = None,
     usr_last_name = None, usr_username = None, usr_language_code = None\<rparr>"

subsection \<open>\<^verbatim>\<open>UserTegOSINT.process_message\<close> (lines 423-460)\<close>

text \<open>Python truth value of an optional integer: \<^verbatim>\<open>None\<close> and \<^verbatim>\<open>0\<close> are false.\<close>

definition truthy :: "int option \<Rightarrow> bool" where
  "truthy v = (case v of None \<Rightarrow> False | Some n \<Rightarrow> n \<noteq> 0)"

text \<open>Lines 425-428: the chat and sender dictionaries and their identifiers.\<close>

definition chat_of :: "message \<Rightarrow> tg_chat" where
  "chat_of m = (case chat m of None \<Rightarrow> empty_chat | Some c \<Rightarrow> c)"

definition user_of :: "message \<Rightarrow> tg_user" where
  "user_of m = (case from_user m of None \<Rightarrow> empty_user | Some u \<Rightarrow> u)"

text \<open>Line 430: \<^verbatim>\<open>all([message.get('message_id'), chat_id, user_id])\<close>.\<close>

definition triad_present :: "message \<Rightarrow> bool" where
  "triad_present m = list_all truthy [message_id m, cht_id (chat_of m), usr_id (user_of m)]"

text \<open>Lines 438-444: the \<^verbatim>\<open>if/elif/elif\<close> chain that sets \<^verbatim>\<open>media_type\<close>.\<close>

definition media_type_of :: "message \<Rightarrow> string option" where
  "media_type_of m =
     (if photo m then Some ''photo''
      else if video m then Some ''video''
      else if document m then Some ''document''
      else None)"

text \<open>Lines 447-458: the row handed to \<^verbatim>\<open>store_message_data\<close>.\<close>

definition message_record :: "message \<Rightarrow> string \<Rightarrow> message_row" where
  "message_record m message_date =
     \<lparr>m_message_id = the (message_id m),
      m_chat_id = the (cht_id (chat_of m)),
      m_user_id = the (usr_id (user_of m)),
      m_username = usr_username (user_of m),
      m_first_name = usr_first_name (user_of m),
      m_message_text = (case msg_text m of None \<Rightarrow> [] | Some t \<Rightarrow> t),
      m_message_date = message_date,
      m_media_type = media_type_of m,
      m_forwarded_from = (case forward_from m of None \<Rightarrow> None | Some u \<Rightarrow> usr_id u),
      m_reply_to_message_id = (case reply_to_message m of None \<Rightarrow> None | Some r \<Rightarrow> message_id r)\<rparr>"

text \<open>
  \<^verbatim>\<open>process_message\<close> calls \<^verbatim>\<open>self.db_manager.store_user_data(user)\<close> (line 433) and
  \<^verbatim>\<open>datetime.fromtimestamp(...).isoformat()\<close> (line 436). The first is not defined in
  either \<^verbatim>\<open>DatabaseManager\<close> class body of the file, the second depends on the local time
  zone and raises outside the platform's range; both are parameters here. The three
  identifiers are read with \<open>the\<close> only behind the guard of line 430, which makes them
  present. The final \<^verbatim>\<open>print\<close> writes to the console and is left out.
\<close>

definition process_message ::
  "(tg_user \<Rightarrow> db \<Rightarrow> error + db) \<Rightarrow> (int \<Rightarrow> error + string) \<Rightarrow> message \<Rightarrow> db \<Rightarrow> error + db" where
  "process_message store_user isoformat m d =
     (if \<not> triad_present m then Inr d
      else case store_user (user_of m) d of
             Inl e \<Rightarrow> Inl e
           | Inr d1 \<Rightarrow>
               (case isoformat (case date m of None \<Rightarrow> 0 | Some t \<Rightarrow> t) of
                  Inl e \<Rightarrow> Inl e
                | Inr message_date \<Rightarrow> Inr (store_message_data (message_record m message_date) d1)))"

text \<open>
  The spec's wording of the media rule: first match wins over the ordered checks photo,
  video, document; none when all three are absent.
\<close>

definition first_match_media :: "message \<Rightarrow> string option" where
  "first_match_media m =
     map_option snd (find fst [(photo m, ''photo''), (video m, ''video''), (document m, ''document'')])"

subsection \<open>\<^verbatim>\<open>store_user_data\<close>\<close>

text \<open>
  Modelled from the spec: \<^verbatim>\<open>DatabaseManager.store_user_data\<close>, which \<^verbatim>\<open>process_message\<close>
  calls at line 433 and no class body of \<^verbatim>\<open>src/userteg.py\<close> defines. The spec's
  \<^verbatim>\<open>upsertUser(user)\<close> (section 4.1): insert a new User row if \<^verbatim>\<open>user_id\<close> is unseen;
  otherwise update \<^verbatim>\<open>last_name\<close>, \<^verbatim>\<open>is_bot\<close>, \<^verbatim>\<open>language_code\<close>, \<^verbatim>\<open>last_seen\<close>, and if the
  incoming username differs from the stored \<^verbatim>\<open>current_username\<close>, first append a
  UsernameHistoryEntry, then update \<^verbatim>\<open>current_username\<close>. The entry holds the observed
  username and the time of the observation, as section 8 has it (\<^verbatim>\<open>bob\<close> at T2, \<^verbatim>\<open>alice\<close>
  at T3); \<^verbatim>\<open>first_seen\<close> is set once. The clock reading \<open>now\<close> is an argument. A user
  without identifier violates the key constraint (StorageError).
\<close>

definition find_user :: "int \<Rightarrow> db \<Rightarrow> user_row option" where
  "find_user uid d = find (\<lambda>r. u_user_id r = uid) (users d)"

definition store_user_data :: "string \<Rightarrow> tg_user \<Rightarrow> db \<Rightarrow> error + db" where
  "store_user_data now user d =
     (case usr_id user of
        None \<Rightarrow> Inl StorageError
      | Some uid \<Rightarrow>
          (case find_user uid d of
             None \<Rightarrow>
               Inr (d\<lparr>users := users d @
                 [\<lparr>u_user_id = uid, u_first_name = usr_first_name user,
                   u_last_name = usr_last_name user, u_current_username = usr_username user,
                   u_is_bot = usr_is_bot user, u_language_code = usr_language_code user,
                   u_first_seen = Some now, u_last_seen = Some now\<rparr>]\<rparr>)
           | Some r \<Rightarrow>
               (let d1 = (if usr_username user = u_current_username r then d
                          else d\<lparr>username_history := username_history d @
                            [\<lparr>h_user_id = Some uid, h_username = usr_username user,
                              h_changed_at = Some now\<rparr>]\<rparr>)
                in Inr (d1\<lparr>users := map (\<lambda>x. if u_user_id x = uid
                       then x\<lparr>u_last_name := usr_last_name user, u_is_bot := usr_is_bot user,
                              u_language_code := usr_language_code user,
                              u_last_seen := Some now,
                              u_current_username := usr_username user\<rparr>
                       else x) (users d1)\<rparr>))))"

subsection \<open>\<^verbatim>\<open>search_usernames\<close> (lines 565-585)\<close>

text \<open>
  SQLite's \<^verbatim>\<open>LIKE\<close> without an \<^verbatim>\<open>ESCAPE\<close> clause: in the pattern \<^verbatim>\<open>%\<close> matches any run of
  characters, \<^verbatim>\<open>_\<close> matches exactly one character, and every other character matches
  itself up to the case of the ASCII letters. \<open>like p t\<close> has the pattern first.
\<close>

definition ascii_lower :: "char \<Rightarrow> char" where
  "ascii_lower c =
     (if CHR ''A'' \<le> c \<and> c \<le> CHR ''Z'' then char_of (of_char c + (32::nat)) else c)"

fun like :: "string \<Rightarrow> string \<Rightarrow> bool" where
  "like [] t = (t = [])"
| "like (p # ps) [] = (p = CHR ''%'' \<and> like ps [])"
| "like (p # ps) (c # cs) =
     (if p = CHR ''%'' then like ps (c # cs) \<or> like (p # ps) cs
      else if p = CHR ''_'' then like ps cs
      else ascii_lower p = ascii_lower c \<and> like ps cs)"

text \<open>\<^verbatim>\<open>x LIKE p\<close> on a nullable column: \<^verbatim>\<open>NULL LIKE p\<close> is \<^verbatim>\<open>NULL\<close>, which selects nothing.\<close>

definition sql_like :: "string option \<Rightarrow> string \<Rightarrow> bool" where
  "sql_like x p = (case x of None \<Rightarrow> False | Some t \<Rightarrow> like p t)"

text \<open>
  \<^verbatim>\<open>users u LEFT JOIN username_history uh ON u.user_id = uh.user_id\<close>: every user row
  paired with each of its history rows, or once with \<^verbatim>\<open>NULL\<close>s when it has none.
\<close>

definition history_join :: "db \<Rightarrow> (user_row \<times> history_row option) list" where
  "history_join d =
     concat (map (\<lambda>u.
       (case filter (\<lambda>h. h_user_id h = Some (u_user_id u)) (username_history d) of
          [] \<Rightarrow> [(u, None)]
        | hs \<Rightarrow> map (\<lambda>h. (u, Some h)) hs)) (users d))"

definition uh_username :: "history_row option \<Rightarrow> string option" where
  "uh_username uh = (case uh of None \<Rightarrow> None | Some h \<Rightarrow> h_username h)"

text \<open>
  The result rows are \<open>(user_id, first_name, current_username)\<close>; \<^verbatim>\<open>SELECT DISTINCT\<close>
  keeps one copy of each. Both parameters are \<^verbatim>\<open>f'%{username_query}%'\<close>.
\<close>

definition search_usernames :: "string \<Rightarrow> db \<Rightarrow> (int \<times> string option \<times> string option) list" where
  "search_usernames username_query d =
     remdups (map (\<lambda>(u, uh). (u_user_id u, u_first_name u, u_current_username u))
       (filter (\<lambda>(u, uh).
            sql_like (u_current_username u) (''%'' @ username_query @ ''%'') \<or>
            sql_like (uh_username uh) (''%'' @ username_query @ ''%''))
          (history_join d)))"

text \<open>
  The spec's wording of the match: the query is a substring of the name, up to the case
  of ASCII letters; a \<^verbatim>\<open>NULL\<close> name contains nothing.
\<close>

definition contains_ci :: "string option \<Rightarrow> string \<Rightarrow> bool" where
  "contains_ci x q =
     (case x of None \<Rightarrow> False
      | Some t \<Rightarrow> sublist (map ascii_lower q) (map ascii_lower t))"

definition wildcard_free :: "string \<Rightarrow> bool" where
  "wildcard_free q = (CHR ''%'' \<notin> set q \<and> CHR ''_'' \<notin> set q)"

subsection \<open>\<^verbatim>\<open>get_user_messages\<close> (lines 587-615) and \<^verbatim>\<open>get_username_history\<close>\<close>

text \<open>
  \<^verbatim>\<open>ORDER BY key DESC\<close>: greater keys first, rows with equal keys in rowid order, as
  SQLite's sorter returns them; \<^verbatim>\<open>NULL\<close> sorts below every value. The two
  \<^verbatim>\<open>TIMESTAMP\<close> columns hold the ISO-8601 strings that are written to them, which the
  column keeps as text and compares byte by byte. A negative \<^verbatim>\<open>LIMIT\<close> is no limit. A
  result row of \<^verbatim>\<open>get_user_messages\<close> always has eleven columns, so \<^verbatim>\<open>chat_title\<close> is
  the joined \<^verbatim>\<open>c.title\<close>.
\<close>

definition order_by_desc :: "('a \<Rightarrow> 'k::linorder) \<Rightarrow> 'a list \<Rightarrow> 'a list" where
  "order_by_desc key rows = rev (sort_key key (rev rows))"

record message_view =
  v_message_id :: int
  v_chat_id :: int
  v_username :: "string option"
  v_first_name :: "string option"
  v_text :: string
  v_date :: string
  v_media_type :: "string option"
  v_chat_title :: "string option"

definition sql_limit :: "int \<Rightarrow> 'a list \<Rightarrow> 'a list" where
  "sql_limit n xs = (if n < 0 then xs else take (nat n) xs)"

definition chat_titles :: "message_row \<Rightarrow> db \<Rightarrow> string option list" where
  "chat_titles r d =
     (case filter (\<lambda>c. c_chat_id c = m_chat_id r) (chats d) of
        [] \<Rightarrow> [None]
      | cs \<Rightarrow> map c_title cs)"

definition get_user_messages :: "int \<Rightarrow> int \<Rightarrow> db \<Rightarrow> message_view list" where
  "get_user_messages user_id limit d =
     sql_limit limit
       (concat (map (\<lambda>r. map (\<lambda>t.
            \<lparr>v_message_id = m_message_id r, v_chat_id = m_chat_id r,
             v_username = m_username r, v_first_name = m_first_name r,
             v_text = m_message_text r, v_date = m_message_date r,
             v_media_type = m_media_type r, v_chat_title = t\<rparr>) (chat_titles r d))
          (order_by_desc m_message_date (filter (\<lambda>r. m_user_id r = user_id) (messages d)))))"

text \<open>Lines 617-631, the query; a later \<^verbatim>\<open>def\<close> of the same class body replaces it.\<close>

definition get_username_history_sql :: "int \<Rightarrow> db \<Rightarrow> (string option \<times> string option) list" where
  "get_username_history_sql user_id d =
     map (\<lambda>h. (h_username h, h_changed_at h))
       (order_by_desc h_changed_at
          (filter (\<lambda>h. h_user_id h = Some user_id) (username_history d)))"

text \<open>
  Lines 636-638. The class body that starts at line 462 runs to line 677: the methods
  after the comment of line 633 are indented into it, so this second \<^verbatim>\<open>def\<close> of
  \<^verbatim>\<open>get_username_history\<close> is the method a \<^verbatim>\<open>DatabaseManager\<close> has. Its body is
  \<^verbatim>\<open>return self.db_manager.get_username_history(user_id)\<close>, and \<^verbatim>\<open>__init__\<close> (lines 465-467)
  gives the object the one attribute \<^verbatim>\<open>db_path\<close>: reading \<^verbatim>\<open>self.db_manager\<close> raises.
\<close>

definition get_username_history ::
  "int \<Rightarrow> db \<Rightarrow> error + (string option \<times> string option) list" where
  "get_username_history user_id d = Inl (AttributeError ''db_manager'')"

subsection \<open>The first \<^verbatim>\<open>DatabaseManager\<close> class body (lines 150-319)\<close>

text \<open>
  The module defines the class twice; the name is bound to the second body when the
  program runs. The methods of the first body, from their own text.
\<close>

definition init_database_first :: "db option \<Rightarrow> db" where
  "init_database_first file = (case file of None \<Rightarrow> empty_db | Some d \<Rightarrow> d)"

definition store_message_data_first :: "message_row \<Rightarrow> db \<Rightarrow> db" where
  "store_message_data_first r d =
     d\<lparr>messages := filter (\<lambda>x. message_key x \<noteq> message_key r) (messages d) @ [r]\<rparr>"

definition search_usernames_first ::
  "string \<Rightarrow> db \<Rightarrow> (int \<times> string option \<times> string option) list" where
  "search_usernames_first username_query d =
     remdups (map (\<lambda>(u, uh). (u_user_id u, u_first_name u, u_current_username u))
       (filter (\<lambda>(u, uh).
            sql_like (u_current_username u) (''%'' @ username_query @ ''%'') \<or>
            sql_like (uh_username uh) (''%'' @ username_query @ ''%''))
          (history_join d)))"

definition get_user_messages_first :: "int \<Rightarrow> int \<Rightarrow> db \<Rightarrow> message_view list" where
  "get_user_messages_first user_id limit d =
     sql_limit limit
       (concat (map (\<lambda>r. map (\<lambda>t.
            \<lparr>v_message_id = m_message_id r, v_chat_id = m_chat_id r,
             v_username = m_username r, v_first_name = m_first_name r,
             v_text = m_message_text r, v_date = m_message_date r,
             v_media_type = m_media_type r, v_chat_title = t\<rparr>) (chat_titles r d))
          (order_by_desc m_message_date (filter (\<lambda>r. m_user_id r = user_id) (messages d)))))"

definition get_username_history_first ::
  "int \<Rightarrow> db \<Rightarrow> error + (string option \<times> string option) list" where
  "get_username_history_first user_id d =
     Inr (map (\<lambda>h. (h_username h, h_changed_at h))
       (order_by_desc h_changed_at
          (filter (\<lambda>h. h_user_id h = Some user_id) (username_history d))))"

subsection \<open>The polling loop \<^verbatim>\<open>start_monitoring\<close> (lines 648-677)\<close>

text \<open>
  The method is written inside the second \<^verbatim>\<open>DatabaseManager\<close> class body and reads
  \<^verbatim>\<open>self.session\<close>, \<^verbatim>\<open>self.base_url\<close> and \<^verbatim>\<open>self.process_message\<close>, which that class
  does not provide; it is modelled as the function of them that its body is.
  \<^verbatim>\<open>self.process_message\<close> is the parameter \<open>pm\<close>. \<^verbatim>\<open>self.session\<close> is the parameter
  \<open>session\<close>: given the \<^verbatim>\<open>offset\<close> of the request and the state of the remote side it
  yields what the cycle gets back, a \<open>response\<close>, and the new state of the remote side.
  A response is one of: \<^verbatim>\<open>session.get\<close> raises; \<^verbatim>\<open>response.json()\<close> raises; the body
  parses to a value that is not an object (\<^verbatim>\<open>null\<close>, a list, a number), on which
  \<^verbatim>\<open>data.get\<close> raises \<^verbatim>\<open>AttributeError\<close>; or the body parses to an envelope with the
  truth value of \<^verbatim>\<open>data.get('ok')\<close> and the list \<^verbatim>\<open>data.get('result', [])\<close>.

  The loop is \<^verbatim>\<open>while True\<close>; a run is driven by the number of requests that are
  answered before the operator's \<^verbatim>\<open>KeyboardInterrupt\<close>, which reaches the loop while the
  next request waits. The only \<^verbatim>\<open>except\<close> clause is for \<^verbatim>\<open>KeyboardInterrupt\<close>, so every
  other exception leaves \<^verbatim>\<open>start_monitoring\<close>; the result is then \<open>Inl\<close> with the
  exception, the monitor state at the raise and the state of the remote side.

  The local variable \<^verbatim>\<open>last_update_id\<close> is the only state of the loop. The field
  \<open>trace\<close> is a ghost log of what the loop did, in order: it is not in the code and no
  branch reads it.
\<close>

datatype event =
    Requested int
  | Advanced int
  | Dispatched int
  | Slept
  | Stopped

record monitor =
  last_update_id :: int
  trace :: "event list"

datatype response =
    GetRaises error
  | JsonRaises
  | NonObject
  | Envelope bool "update list"

definition log_event :: "event \<Rightarrow> monitor \<Rightarrow> monitor" where
  "log_event ev s = s\<lparr>trace := trace s @ [ev]\<rparr>"

text \<open>Lines 668-672, the \<^verbatim>\<open>for update in updates\<close> loop.\<close>

fun dispatch_updates ::
  "(message \<Rightarrow> db \<Rightarrow> error + db) \<Rightarrow> update list \<Rightarrow> monitor \<Rightarrow> db \<Rightarrow> (error \<times> monitor) + (monitor \<times> db)" where
  "dispatch_updates pm [] s d = Inr (s, d)"
| "dispatch_updates pm (u # us) s d =
     (let s1 = log_event (Advanced (upd_id u)) (s\<lparr>last_update_id := upd_id u\<rparr>) in
      case upd_message u of
        None \<Rightarrow> dispatch_updates pm us s1 d
      | Some m \<Rightarrow>
          (case pm m d of
             Inl e \<Rightarrow> Inl (e, log_event (Dispatched (upd_id u)) s1)
           | Inr d1 \<Rightarrow> dispatch_updates pm us (log_event (Dispatched (upd_id u)) s1) d1))"

text \<open>Lines 657-677, the \<^verbatim>\<open>while True\<close> loop inside the \<^verbatim>\<open>try\<close>.\<close>

fun monitor_loop ::
  "(message \<Rightarrow> db \<Rightarrow> error + db) \<Rightarrow> (int \<Rightarrow> 'v \<Rightarrow> response \<times> 'v) \<Rightarrow> nat \<Rightarrow>
   monitor \<Rightarrow> 'v \<Rightarrow> db \<Rightarrow> (error \<times> monitor \<times> 'v) + (monitor \<times> 'v \<times> db)" where
  "monitor_loop pm session 0 s v d =
     Inr (log_event Stopped (log_event (Requested (last_update_id s + 1)) s),
          snd (session (last_update_id s + 1) v), d)"
| "monitor_loop pm session (Suc n) s v d =
     (let s0 = log_event (Requested (last_update_id s + 1)) s in
      case session (last_update_id s + 1) v of
        (GetRaises e, v1) \<Rightarrow> Inl (e, s0, v1)
      | (JsonRaises, v1) \<Rightarrow> Inl (JSONDecodeError, s0, v1)
      | (NonObject, v1) \<Rightarrow> Inl (AttributeError ''get'', s0, v1)
      | (Envelope ok result, v1) \<Rightarrow>
          if ok then
            (case dispatch_updates pm result s0 d of
               Inl (e, s1) \<Rightarrow> Inl (e, s1, v1)
             | Inr (s1, d1) \<Rightarrow> monitor_loop pm session n (log_event Slept s1) v1 d1)
          else monitor_loop pm session n (log_event Slept s0) v1 d)"

text \<open>Line 655: the loop starts with \<^verbatim>\<open>last_update_id = 0\<close>, at every call.\<close>

definition start_monitoring ::
  "(message \<Rightarrow> db \<Rightarrow> error + db) \<Rightarrow> (int \<Rightarrow> 'v \<Rightarrow> response \<times> 'v) \<Rightarrow> nat \<Rightarrow>
   'v \<Rightarrow> db \<Rightarrow> (error \<times> monitor \<times> 'v) + (monitor \<times> 'v \<times> db)" where
  "start_monitoring pm session n v d =
     monitor_loop pm session n \<lparr>last_update_id = 0, trace = []\<rparr> v d"

text \<open>
  Modelled from the spec: the platform's side of \<^verbatim>\<open>getUpdates\<close>, which is not code of the
  repository. Section 6 and the glossary: the request carries an \<^verbatim>\<open>offset\<close>, which
  acknowledges the consumed updates and asks only for newer ones, and the answer is the
  ordered list of update records; section 3: after a restart the platform reports from
  the earliest unacknowledged update. The state is the list of updates the platform
  still holds; a request drops those below the offset and returns the rest.
\<close>

definition getUpdates :: "int \<Rightarrow> update list \<Rightarrow> response \<times> update list" where
  "getUpdates offset held =
     (Envelope True (filter (\<lambda>u. offset \<le> upd_id u) held),
      filter (\<lambda>u. offset \<le> upd_id u) held)"

text \<open>
  A session that plays a fixed list of responses, whatever the offset; when the list is
  used up the long poll times out with no update.
\<close>

definition scripted :: "int \<Rightarrow> response list \<Rightarrow> response \<times> response list" where
  "scripted offset rs = (case rs of [] \<Rightarrow> (Envelope True [], []) | r # rest \<Rightarrow> (r, rest))"

text \<open>
  What one pass of the \<^verbatim>\<open>for\<close> loop leaves in the trace when no dispatch raises: for each
  update in the order received, the offset assignment and then, when the update has a
  message, its dispatch.
\<close>

definition cycle_events :: "update list \<Rightarrow> event list" where
  "cycle_events us =
     concat (map (\<lambda>u. Advanced (upd_id u) #
        (case upd_message u of None \<Rightarrow> [] | Some m \<Rightarrow> [Dispatched (upd_id u)])) us)"

text \<open>
  A run of the pipeline on a list of messages, each with the clock reading of its
  observation; it stops at the first exception, as the \<^verbatim>\<open>for\<close> loop does.
\<close>

fun process_all ::
  "(string \<Rightarrow> tg_user \<Rightarrow> db \<Rightarrow> error + db) \<Rightarrow> (int \<Rightarrow> error + string) \<Rightarrow>
   (string \<times> message) list \<Rightarrow> db \<Rightarrow> error + db" where
  "process_all store_user isoformat [] d = Inr d"
| "process_all store_user isoformat ((now, m) # ms) d =
     (case process_message (store_user now) isoformat m d of
        Inl e \<Rightarrow> Inl e
      | Inr d1 \<Rightarrow> process_all store_user isoformat ms d1)"

subsection \<open>Vocabulary of the claims and sample inputs\<close>

text \<open>
  The spec's rule for the history log: an entry is written exactly when the observed
  username differs from the \<^verbatim>\<open>current_username\<close> stored for that user.
\<close>

definition history_delta :: "string \<Rightarrow> tg_user \<Rightarrow> db \<Rightarrow> history_row list" where
  "history_delta now user d =
     (case find_user (the (usr_id user)) d of
        None \<Rightarrow> []
      | Some r \<Rightarrow>
          if usr_username user = u_current_username r then []
          else [\<lparr>h_user_id = usr_id user, h_username = usr_username user,
                 h_changed_at = Some now\<rparr>])"

definition observed :: "int \<Rightarrow> string \<Rightarrow> message \<Rightarrow> bool" where
  "observed uid name m =
     (triad_present m \<and> usr_id (user_of m) = Some uid \<and> usr_username (user_of m) = Some name)"

definition current_username_of :: "int \<Rightarrow> db \<Rightarrow> string option option" where
  "current_username_of uid d = map_option u_current_username (find_user uid d)"

definition sender :: "int \<Rightarrow> string \<Rightarrow> tg_user" where
  "sender uid name = \<lparr>usr_id = Some uid, usr_is_bot = Some False, usr_first_name = Some ''Al'',
     usr_last_name = None, usr_username = Some name, usr_language_code = None\<rparr>"

definition group_chat :: "int \<Rightarrow> tg_chat" where
  "group_chat cid = \<lparr>cht_id = Some cid, cht_type = Some ''group'', cht_title = Some ''G'',
     cht_username = None\<rparr>"

definition text_message :: "int \<Rightarrow> int \<Rightarrow> int \<Rightarrow> string \<Rightarrow> string \<Rightarrow> message" where
  "text_message mid cid uid name body =
     Message (Some mid) (Some (group_chat cid)) (Some (sender uid name)) (Some 0) (Some body)
       False False False None None"

text \<open>A stand-in for the time-zone dependent \<^verbatim>\<open>isoformat\<close> in the sample runs.\<close>

definition epoch_format :: "int \<Rightarrow> error + string" where
  "epoch_format t = Inr ''1970-01-01T00:00:00''"

text \<open>
  A database as the pipeline of the spec leaves it after one user was seen as alice, bob
  and carol: the user row with the current name, and the two changes.
\<close>

definition renamed_db :: db where
  "renamed_db = empty_db\<lparr>
     users := [\<lparr>u_user_id = 1, u_first_name = Some ''Al'', u_last_name = None,
                u_current_username = Some ''carol'', u_is_bot = Some False,
                u_language_code = None, u_first_seen = Some ''T1'', u_last_seen = Some ''T3''\<rparr>],
     username_history :=
       [\<lparr>h_user_id = Some 1, h_username = Some ''bob'', h_changed_at = Some ''T2''\<rparr>,
        \<lparr>h_user_id = Some 1, h_username = Some ''carol'', h_changed_at = Some ''T3''\<rparr>]\<rparr>"

text \<open>
  What the call of line 433 does on the file as it is: no class body defines
  \<^verbatim>\<open>store_user_data\<close>, so the attribute lookup raises before anything is written.
\<close>

definition raising_store_user :: "tg_user \<Rightarrow> db \<Rightarrow> error + db" where
  "raising_store_user user d = Inl (AttributeError ''store_user_data'')"

definition sample_updates :: "update list" where
  "sample_updates =
     [\<lparr>upd_id = 7, upd_message = None\<rparr>,
      \<lparr>upd_id = 8, upd_message = Some (text_message 10 100 1 ''alice'' ''hello'')\<rparr>,
      \<lparr>upd_id = 9, upd_message = None\<rparr>]"

section \<open>Theorems\<close>

subsection \<open>The message table\<close>

lemma rows_with_key_store:
  "rows_with_key (message_key r) (store_message_data r d) = [r]"
  by (simp add: rows_with_key_def store_message_data_def)

lemma store_message_data_frame:
  "users (store_message_data r d) = users d"
  "username_history (store_message_data r d) = username_history d"
  "chats (store_message_data r d) = chats d"
  "user_activity (store_message_data r d) = user_activity d"
  by (simp_all add: store_message_data_def)

text \<open>
  C1. Storing a message record twice leaves exactly one row under its
  \<^verbatim>\<open>(message_id, chat_id)\<close> key, and a later write under the same key replaces the row:
  after the two writes the rows under the key are exactly the second record, whatever
  the database held before and whatever the first write stored. Taking the second
  record equal to the first gives the idempotence.
\<close>

theorem store_message_data_upsert:
  "message_key r2 = message_key r1 \<Longrightarrow>
   rows_with_key (message_key r1) (store_message_data r2 (store_message_data r1 d)) = [r2]"
  using rows_with_key_store [of r2 "store_message_data r1 d"] by simp

theorem store_message_data_upsert_witness:
  "message_key (message_record (text_message 10 100 1 ''alice'' ''edited'') ''T2'')
     = message_key (message_record (text_message 10 100 1 ''alice'' ''hello'') ''T1'')
   \<and> rows_with_key (10, 100)
       (store_message_data (message_record (text_message 10 100 1 ''alice'' ''edited'') ''T2'')
         (store_message_data (message_record (text_message 10 100 1 ''alice'' ''hello'') ''T1'')
           (init_database None)))
     = [message_record (text_message 10 100 1 ''alice'' ''edited'') ''T2'']"
proof -
  have k: "message_key (message_record (text_message 10 100 1 ''alice'' ''edited'') ''T2'')
     = message_key (message_record (text_message 10 100 1 ''alice'' ''hello'') ''T1'')"
    by (simp add: message_key_def message_record_def text_message_def chat_of_def group_chat_def)
  have "message_key (message_record (text_message 10 100 1 ''alice'' ''hello'') ''T1'') = (10, 100)"
    by (simp add: message_key_def message_record_def text_message_def chat_of_def group_chat_def)
  with store_message_data_upsert [OF k, of "init_database None"] k show ?thesis
    by simp
qed

subsection \<open>The guard of \<^verbatim>\<open>process_message\<close>\<close>

lemma process_message_skip:
  "\<not> triad_present m \<Longrightarrow> process_message su fmt m d = Inr d"
  by (simp add: process_message_def)

lemma dispatch_no_message:
  "upd_message u = None \<Longrightarrow>
   dispatch_updates pm [u] s d = Inr (log_event (Advanced (upd_id u)) (s\<lparr>last_update_id := upd_id u\<rparr>), d)"
  by simp

text \<open>
  C3. An update that carries no message is not handed to \<^verbatim>\<open>process_message\<close> and the
  database is as before; a message that lacks the message identifier, the chat
  identifier or the sender identifier makes \<^verbatim>\<open>process_message\<close> return at the guard with
  the whole database unchanged, whatever \<^verbatim>\<open>store_user_data\<close> would do.
\<close>

theorem normalizer_skip_writes_nothing:
  "(upd_message u = None \<longrightarrow>
      dispatch_updates pm [u] s d
        = Inr (log_event (Advanced (upd_id u)) (s\<lparr>last_update_id := upd_id u\<rparr>), d))
   \<and> (message_id m = None \<or> cht_id (chat_of m) = None \<or> usr_id (user_of m) = None \<longrightarrow>
      process_message su fmt m d = Inr d)"
proof -
  have "\<not> triad_present m"
    if "message_id m = None \<or> cht_id (chat_of m) = None \<or> usr_id (user_of m) = None"
    using that by (auto simp: triad_present_def truthy_def)
  then show ?thesis
    using process_message_skip [of m su fmt d] dispatch_no_message [of u pm s d] by blast
qed

theorem normalizer_skip_writes_nothing_witness:
  "upd_message \<lparr>upd_id = 7, upd_message = None\<rparr> = None
   \<and> dispatch_updates (process_message (store_user_data ''T1'') epoch_format)
        [\<lparr>upd_id = 7, upd_message = None\<rparr>] \<lparr>last_update_id = 0, trace = []\<rparr> (init_database None)
      = Inr (\<lparr>last_update_id = 7, trace = [Advanced 7]\<rparr>, init_database None)
   \<and> cht_id (chat_of (Message (Some 10) None (Some (sender 1 ''alice'')) (Some 0) (Some ''hi'')
        False False False None None)) = None
   \<and> process_message (store_user_data ''T1'') epoch_format
        (Message (Some 10) None (Some (sender 1 ''alice'')) (Some 0) (Some ''hi'')
           False False False None None) (init_database None)
      = Inr (init_database None)"
  using normalizer_skip_writes_nothing
    [of "\<lparr>upd_id = 7, upd_message = None\<rparr>"
        "process_message (store_user_data ''T1'') epoch_format"
        "\<lparr>last_update_id = 0, trace = []\<rparr>" "init_database None"
        "Message (Some 10) None (Some (sender 1 ''alice'')) (Some 0) (Some ''hi'')
           False False False None None"
        "store_user_data ''T1''" epoch_format]
  by (simp add: chat_of_def empty_chat_def log_event_def)

text \<open>
  C10. The guard tests truth values, so an identifier that is present and equal to 0
  counts as missing: a message whose message identifier, chat identifier or sender
  identifier is 0 is skipped and the database is unchanged.
\<close>

theorem zero_identifier_skipped:
  "message_id m = Some 0 \<or> cht_id (chat_of m) = Some 0 \<or> usr_id (user_of m) = Some 0 \<Longrightarrow>
   process_message su fmt m d = Inr d"
proof -
  assume "message_id m = Some 0 \<or> cht_id (chat_of m) = Some 0 \<or> usr_id (user_of m) = Some 0"
  then have "\<not> triad_present m"
    by (auto simp: triad_present_def truthy_def)
  then show ?thesis by (rule process_message_skip)
qed

theorem zero_identifier_skipped_witness:
  "message_id (text_message 0 100 1 ''alice'' ''hi'') = Some 0
   \<and> process_message (store_user_data ''T1'') epoch_format (text_message 0 100 1 ''alice'' ''hi'')
       (init_database None) = Inr (init_database None)
   \<and> usr_id (user_of (text_message 10 100 0 ''alice'' ''hi'')) = Some 0
   \<and> process_message (store_user_data ''T1'') epoch_format (text_message 10 100 0 ''alice'' ''hi'')
       (init_database None) = Inr (init_database None)"
proof -
  have a: "message_id (text_message 0 100 1 ''alice'' ''hi'') = Some 0"
    by (simp add: text_message_def)
  have b: "usr_id (user_of (text_message 10 100 0 ''alice'' ''hi'')) = Some 0"
    by (simp add: text_message_def user_of_def sender_def)
  show ?thesis
    using a b zero_identifier_skipped [OF disjI1, OF a]
      zero_identifier_skipped [OF disjI2, OF disjI2, OF b]
    by simp
qed

subsection \<open>Media classification\<close>

lemma first_match_media_eq: "first_match_media m = media_type_of m"
  by (simp add: first_match_media_def media_type_of_def)

lemma process_message_stores:
  assumes "triad_present m" and "process_message su fmt m d = Inr d'"
  shows "\<exists>d1 md. su (user_of m) d = Inr d1 \<and> d' = store_message_data (message_record m md) d1"
  using assms by (auto simp: process_message_def split: sum.splits)

text \<open>
  C7. For every message that \<^verbatim>\<open>process_message\<close> processes to the end, the row stored
  under its key has the media type that the ordered checks photo, video, document give
  first-match-wins, and no media type when all three keys are absent; with a photo the
  result is \<^verbatim>\<open>photo\<close> whatever else the message carries.
\<close>

theorem media_type_first_match:
  assumes "triad_present m" and "process_message su fmt m d = Inr d'"
  shows "map m_media_type (rows_with_key (the (message_id m), the (cht_id (chat_of m))) d')
           = [first_match_media m]
         \<and> first_match_media m
           = (if photo m then Some ''photo'' else if video m then Some ''video''
              else if document m then Some ''document'' else None)"
proof -
  from process_message_stores [OF assms] obtain d1 md
    where d': "d' = store_message_data (message_record m md) d1" by blast
  have k: "message_key (message_record m md) = (the (message_id m), the (cht_id (chat_of m)))"
    by (simp add: message_key_def message_record_def)
  have "map m_media_type (rows_with_key (the (message_id m), the (cht_id (chat_of m))) d')
           = [first_match_media m]"
    using rows_with_key_store [of "message_record m md" d1] unfolding d' k
    by (simp add: message_record_def first_match_media_eq)
  then show ?thesis by (simp add: first_match_media_def)
qed

theorem media_type_first_match_witness:
  "triad_present (Message (Some 10) (Some (group_chat 100)) (Some (sender 1 ''alice''))
       (Some 0) None True False True None None)
   \<and> (\<exists>d'. process_message (store_user_data ''T1'') epoch_format
         (Message (Some 10) (Some (group_chat 100)) (Some (sender 1 ''alice''))
            (Some 0) None True False True None None) (init_database None) = Inr d'
       \<and> map m_media_type (rows_with_key (10, 100) d') = [Some ''photo''])"
proof -
  let ?m = "Message (Some 10) (Some (group_chat 100)) (Some (sender 1 ''alice''))
       (Some 0) None True False True None None"
  have t: "triad_present ?m"
    by (simp add: triad_present_def truthy_def chat_of_def user_of_def group_chat_def sender_def)
  obtain d' where p: "process_message (store_user_data ''T1'') epoch_format ?m (init_database None) = Inr d'"
    using t by (simp add: process_message_def store_user_data_def find_user_def user_of_def
        sender_def init_database_def empty_db_def epoch_format_def)
  from media_type_first_match [OF t p]
  have h: "map m_media_type (rows_with_key (10, 100) d') = [Some ''photo'']"
    by (simp add: chat_of_def group_chat_def)
  have "\<exists>d'. process_message (store_user_data ''T1'') epoch_format ?m (init_database None) = Inr d'
       \<and> map m_media_type (rows_with_key (10, 100) d') = [Some ''photo'']"
  proof (intro exI conjI)
    show "process_message (store_user_data ''T1'') epoch_format ?m (init_database None) = Inr d'"
      by (rule p)
    show "map m_media_type (rows_with_key (10, 100) d') = [Some ''photo'']"
      by (rule h)
  qed
  with t show ?thesis by (rule conjI)
qed

subsection \<open>Username history\<close>

lemma find_user_store_message:
  "find_user uid (store_message_data r d) = find_user uid d"
  by (simp add: find_user_def store_message_data_def)

lemma triad_user_id: "triad_present m \<Longrightarrow> \<exists>uid. usr_id (user_of m) = Some uid"
  by (auto simp: triad_present_def truthy_def split: option.splits)

lemma find_append_None: "find P xs = None \<Longrightarrow> find P (xs @ ys) = find P ys"
  by (induction xs) (auto split: if_splits)

lemma find_update_row:
  assumes "\<And>x. key (f x) = key x"
  shows "find (\<lambda>x. key x = k) (map (\<lambda>x. if key x = k then f x else x) xs)
         = map_option f (find (\<lambda>x. key x = k) xs)"
  using assms by (induction xs) auto

lemma store_user_data_new:
  assumes "usr_id u = Some uid" and "find_user uid d = None"
  shows "\<exists>d'. store_user_data now u d = Inr d' \<and> username_history d' = username_history d
           \<and> current_username_of uid d' = Some (usr_username u)
           \<and> user_activity d' = user_activity d"
  using assms
  by (simp add: store_user_data_def current_username_of_def find_user_def find_append_None)

lemma store_user_data_known:
  assumes "usr_id u = Some uid" and "find_user uid d = Some r"
  shows "\<exists>d'. store_user_data now u d = Inr d'
           \<and> username_history d' = username_history d @ history_delta now u d
           \<and> current_username_of uid d' = Some (usr_username u)
           \<and> user_activity d' = user_activity d"
proof -
  let ?f = "\<lambda>x. x\<lparr>u_last_name := usr_last_name u, u_is_bot := usr_is_bot u,
                 u_language_code := usr_language_code u, u_last_seen := Some now,
                 u_current_username := usr_username u\<rparr>"
  have "find (\<lambda>x. u_user_id x = uid) (map (\<lambda>x. if u_user_id x = uid then ?f x else x) (users d))
         = map_option ?f (find (\<lambda>x. u_user_id x = uid) (users d))"
    by (rule find_update_row) simp
  then show ?thesis using assms
    by (auto simp: store_user_data_def current_username_of_def find_user_def history_delta_def Let_def)
qed

lemma store_user_data_history:
  assumes "usr_id u = Some uid"
  shows "\<exists>d'. store_user_data now u d = Inr d'
           \<and> username_history d' = username_history d @ history_delta now u d
           \<and> current_username_of uid d' = Some (usr_username u)
           \<and> user_activity d' = user_activity d"
proof (cases "find_user uid d")
  case None
  then show ?thesis using store_user_data_new [OF assms None, where now = now] assms
    by (auto simp: history_delta_def)
next
  case (Some r)
  then show ?thesis using store_user_data_known [OF assms Some] by simp
qed

lemma process_message_history:
  assumes "triad_present m" and "\<forall>t. \<exists>s. fmt t = Inr s"
  shows "\<exists>d'. process_message (store_user_data now) fmt m d = Inr d'
           \<and> username_history d' = username_history d @ history_delta now (user_of m) d
           \<and> current_username_of (the (usr_id (user_of m))) d' = Some (usr_username (user_of m))"
proof -
  from assms(1) obtain uid where uid: "usr_id (user_of m) = Some uid"
    using triad_user_id by blast
  from store_user_data_history [OF uid, where now = now and d = d] obtain d1 where
    d1: "store_user_data now (user_of m) d = Inr d1"
        "username_history d1 = username_history d @ history_delta now (user_of m) d"
        "current_username_of uid d1 = Some (usr_username (user_of m))" by blast
  obtain md where md: "fmt (case date m of None \<Rightarrow> 0 | Some t \<Rightarrow> t) = Inr md"
    using assms(2) by blast
  show ?thesis using assms(1) d1 md uid
    by (simp add: process_message_def current_username_of_def store_message_data_frame
        find_user_store_message)
qed

lemma alice_bob_alice:
  assumes fmt: "\<forall>t. \<exists>s. fmt t = Inr s"
    and o: "observed uid ''alice'' m1" "observed uid ''bob'' m2" "observed uid ''alice'' m3"
    and new: "find_user uid d = None"
  shows "\<exists>d'. process_all store_user_data fmt [(t1, m1), (t2, m2), (t3, m3)] d = Inr d'
     \<and> username_history d' = username_history d @
          [\<lparr>h_user_id = Some uid, h_username = Some ''bob'', h_changed_at = Some t2\<rparr>,
           \<lparr>h_user_id = Some uid, h_username = Some ''alice'', h_changed_at = Some t3\<rparr>]
     \<and> current_username_of uid d' = Some (Some ''alice'')"
proof -
  from process_message_history [OF _ fmt, where m = m1 and now = t1 and d = d] o(1) obtain d1 where
    d1: "process_message (store_user_data t1) fmt m1 d = Inr d1"
        "username_history d1 = username_history d"
        "current_username_of uid d1 = Some (Some ''alice'')"
    using new by (auto simp: observed_def history_delta_def)
  from process_message_history [OF _ fmt, where m = m2 and now = t2 and d = d1] o(2) obtain d2 where
    d2: "process_message (store_user_data t2) fmt m2 d1 = Inr d2"
        "username_history d2 = username_history d1 @
           [\<lparr>h_user_id = Some uid, h_username = Some ''bob'', h_changed_at = Some t2\<rparr>]"
        "current_username_of uid d2 = Some (Some ''bob'')"
    using d1(3) by (auto simp: observed_def history_delta_def current_username_of_def)
  from process_message_history [OF _ fmt, where m = m3 and now = t3 and d = d2] o(3) obtain d3 where
    d3: "process_message (store_user_data t3) fmt m3 d2 = Inr d3"
        "username_history d3 = username_history d2 @
           [\<lparr>h_user_id = Some uid, h_username = Some ''alice'', h_changed_at = Some t3\<rparr>]"
        "current_username_of uid d3 = Some (Some ''alice'')"
    using d2(3) by (auto simp: observed_def history_delta_def current_username_of_def)
  show ?thesis using d1 d2 d3 by simp
qed

text \<open>
  C2. With \<^verbatim>\<open>store_user_data\<close> as the spec describes it, and a date formatter that does
  not raise: every message that passes the guard is processed, and it appends to
  \<^verbatim>\<open>username_history\<close> exactly the entry of \<open>history_delta\<close>, that is one entry with the
  observed username and the clock reading when the sender is stored with a different
  \<^verbatim>\<open>current_username\<close>, and nothing otherwise. For a sender not yet stored who is
  observed as alice, bob, alice at the times t1, t2, t3, the table gains exactly two
  entries, bob at t2 and then alice at t3, and the stored \<^verbatim>\<open>current_username\<close> ends
  at alice.
\<close>

theorem username_history_append_on_change:
  assumes "\<forall>t. \<exists>s. fmt t = Inr s"
  shows "(triad_present m \<longrightarrow>
            (\<exists>d'. process_message (store_user_data now) fmt m d = Inr d'
               \<and> username_history d' = username_history d @ history_delta now (user_of m) d))
         \<and> (observed uid ''alice'' m1 \<and> observed uid ''bob'' m2 \<and> observed uid ''alice'' m3
              \<and> find_user uid d0 = None \<longrightarrow>
            (\<exists>d'. process_all store_user_data fmt [(t1, m1), (t2, m2), (t3, m3)] d0 = Inr d'
               \<and> username_history d' = username_history d0 @
                    [\<lparr>h_user_id = Some uid, h_username = Some ''bob'', h_changed_at = Some t2\<rparr>,
                     \<lparr>h_user_id = Some uid, h_username = Some ''alice'', h_changed_at = Some t3\<rparr>]
               \<and> current_username_of uid d' = Some (Some ''alice'')))"
proof (intro conjI impI)
  assume "triad_present m"
  from process_message_history [OF this assms, where now = now and d = d]
  show "\<exists>d'. process_message (store_user_data now) fmt m d = Inr d'
               \<and> username_history d' = username_history d @ history_delta now (user_of m) d"
    by blast
next
  assume "observed uid ''alice'' m1 \<and> observed uid ''bob'' m2 \<and> observed uid ''alice'' m3
              \<and> find_user uid d0 = None"
  then show "\<exists>d'. process_all store_user_data fmt [(t1, m1), (t2, m2), (t3, m3)] d0 = Inr d'
               \<and> username_history d' = username_history d0 @
                    [\<lparr>h_user_id = Some uid, h_username = Some ''bob'', h_changed_at = Some t2\<rparr>,
                     \<lparr>h_user_id = Some uid, h_username = Some ''alice'', h_changed_at = Some t3\<rparr>]
               \<and> current_username_of uid d' = Some (Some ''alice'')"
    using alice_bob_alice [OF assms, of uid m1 m2 m3 d0 t1 t2 t3] by blast
qed

theorem username_history_append_on_change_witness:
  "(\<forall>t. \<exists>s. epoch_format t = Inr s)
   \<and> triad_present (text_message 11 100 1 ''bob'' ''hi again'')
   \<and> observed 1 ''alice'' (text_message 10 100 1 ''alice'' ''hello'')
   \<and> observed 1 ''bob'' (text_message 11 100 1 ''bob'' ''hi again'')
   \<and> observed 1 ''alice'' (text_message 12 100 1 ''alice'' ''back'')
   \<and> find_user 1 (init_database None) = None
   \<and> (\<exists>d'. process_all store_user_data epoch_format
          [(''T1'', text_message 10 100 1 ''alice'' ''hello''),
           (''T2'', text_message 11 100 1 ''bob'' ''hi again''),
           (''T3'', text_message 12 100 1 ''alice'' ''back'')] (init_database None) = Inr d'
        \<and> username_history d' =
            [\<lparr>h_user_id = Some 1, h_username = Some ''bob'', h_changed_at = Some ''T2''\<rparr>,
             \<lparr>h_user_id = Some 1, h_username = Some ''alice'', h_changed_at = Some ''T3''\<rparr>]
        \<and> current_username_of 1 d' = Some (Some ''alice''))"
proof -
  have f: "\<forall>t. \<exists>s. epoch_format t = Inr s"
    by (simp add: epoch_format_def)
  have o: "observed 1 ''alice'' (text_message 10 100 1 ''alice'' ''hello'')"
       "observed 1 ''bob'' (text_message 11 100 1 ''bob'' ''hi again'')"
       "observed 1 ''alice'' (text_message 12 100 1 ''alice'' ''back'')"
    by (simp_all add: observed_def triad_present_def truthy_def text_message_def chat_of_def
        user_of_def group_chat_def sender_def)
  have n: "find_user 1 (init_database None) = None"
    by (simp add: find_user_def init_database_def empty_db_def)
  have e: "username_history (init_database None) = []"
    by (simp add: init_database_def empty_db_def)
  from o(2) have t: "triad_present (text_message 11 100 1 ''bob'' ''hi again'')"
    by (simp add: observed_def)
  show ?thesis
    using username_history_append_on_change [OF f,
        of "text_message 11 100 1 ''bob'' ''hi again''" "''T2''" "init_database None" 1
           "text_message 10 100 1 ''alice'' ''hello''" "text_message 11 100 1 ''bob'' ''hi again''"
           "text_message 12 100 1 ''alice'' ''back''" "init_database None" "''T1''" "''T2''" "''T3''"]
      f o n t e
    by simp
qed

subsection \<open>The polling loop\<close>

lemma log_event_simps [simp]:
  "trace (log_event ev s) = trace s @ [ev]"
  "last_update_id (log_event ev s) = last_update_id s"
  by (simp_all add: log_event_def)

lemma cycle_events_Cons:
  "cycle_events (u # us) = Advanced (upd_id u) #
        (case upd_message u of None \<Rightarrow> [] | Some m \<Rightarrow> [Dispatched (upd_id u)]) @ cycle_events us"
  by (simp add: cycle_events_def)

lemma cycle_events_Nil [simp]: "cycle_events [] = []"
  by (simp add: cycle_events_def)

lemma dispatch_updates_ok:
  "dispatch_updates pm us s d = Inr (s', d') \<Longrightarrow>
   trace s' = trace s @ cycle_events us \<and>
   last_update_id s' = (if us = [] then last_update_id s else upd_id (last us))"
proof (induction us arbitrary: s d)
  case Nil
  then show ?case by simp
next
  case (Cons u us)
  show ?case
  proof (cases "upd_message u")
    case None
    with Cons.prems have "dispatch_updates pm us
        (log_event (Advanced (upd_id u)) (s\<lparr>last_update_id := upd_id u\<rparr>)) d = Inr (s', d')"
      by simp
    from Cons.IH [OF this] None show ?thesis
      by (simp add: cycle_events_Cons)
  next
    case (Some m)
    with Cons.prems obtain d1 where "pm m d = Inr d1"
      and "dispatch_updates pm us (log_event (Dispatched (upd_id u))
             (log_event (Advanced (upd_id u)) (s\<lparr>last_update_id := upd_id u\<rparr>))) d1 = Inr (s', d')"
      by (auto simp: Let_def split: sum.splits)
    from Cons.IH [OF this(2)] Some show ?thesis
      by (simp add: cycle_events_Cons)
  qed
qed

lemma dispatch_updates_fail:
  "dispatch_updates pm us s d = Inl (e, s') \<Longrightarrow>
   \<exists>before u rest. us = before @ u # rest \<and> upd_message u \<noteq> None \<and>
     trace s' = trace s @ cycle_events before @ [Advanced (upd_id u), Dispatched (upd_id u)] \<and>
     last_update_id s' = upd_id u"
proof (induction us arbitrary: s d)
  case Nil
  then show ?case by simp
next
  case (Cons u us)
  show ?case
  proof (cases "upd_message u")
    case None
    with Cons.prems have "dispatch_updates pm us
        (log_event (Advanced (upd_id u)) (s\<lparr>last_update_id := upd_id u\<rparr>)) d = Inl (e, s')"
      by simp
    from Cons.IH [OF this] obtain bf v rest where
      "us = bf @ v # rest" "upd_message v \<noteq> None"
      "trace s' = (trace s @ [Advanced (upd_id u)]) @ cycle_events bf
          @ [Advanced (upd_id v), Dispatched (upd_id v)]"
      "last_update_id s' = upd_id v" by auto
    then have "u # us = (u # bf) @ v # rest \<and> upd_message v \<noteq> None \<and>
      trace s' = trace s @ cycle_events (u # bf) @ [Advanced (upd_id v), Dispatched (upd_id v)] \<and>
      last_update_id s' = upd_id v" using None
      by (simp add: cycle_events_Cons)
    then show ?thesis by blast
  next
    case (Some m)
    show ?thesis
    proof (cases "pm m d")
      case (Inl e')
      with Some Cons.prems have "s' = log_event (Dispatched (upd_id u))
          (log_event (Advanced (upd_id u)) (s\<lparr>last_update_id := upd_id u\<rparr>))"
        by (simp add: Let_def)
      then have "u # us = [] @ u # us \<and> upd_message u \<noteq> None \<and>
        trace s' = trace s @ cycle_events [] @ [Advanced (upd_id u), Dispatched (upd_id u)] \<and>
        last_update_id s' = upd_id u" using Some by simp
      then show ?thesis by blast
    next
      case (Inr d1)
      with Some Cons.prems have "dispatch_updates pm us (log_event (Dispatched (upd_id u))
          (log_event (Advanced (upd_id u)) (s\<lparr>last_update_id := upd_id u\<rparr>))) d1 = Inl (e, s')"
        by (simp add: Let_def)
      from Cons.IH [OF this] obtain bf v rest where
        "us = bf @ v # rest" "upd_message v \<noteq> None"
        "trace s' = (trace s @ [Advanced (upd_id u), Dispatched (upd_id u)]) @ cycle_events bf
            @ [Advanced (upd_id v), Dispatched (upd_id v)]"
        "last_update_id s' = upd_id v" by auto
      then have "u # us = (u # bf) @ v # rest \<and> upd_message v \<noteq> None \<and>
        trace s' = trace s @ cycle_events (u # bf) @ [Advanced (upd_id v), Dispatched (upd_id v)] \<and>
        last_update_id s' = upd_id v" using Some
        by (simp add: cycle_events_Cons)
      then show ?thesis by blast
    qed
  qed
qed

lemma getUpdates_failed_update_held:
  "monitor_loop pm getUpdates n s v d = Inl (e, s1, v1) \<Longrightarrow>
   \<exists>u \<in> set v1. upd_id u = last_update_id s1 \<and> upd_message u \<noteq> None \<and>
      last (trace s1) = Dispatched (upd_id u)"
proof (induction n arbitrary: s v d)
  case 0
  then show ?case by simp
next
  case (Suc n)
  let ?kept = "filter (\<lambda>u. last_update_id s + 1 \<le> upd_id u) v"
  let ?s0 = "log_event (Requested (last_update_id s + 1)) s"
  have answer: "getUpdates (last_update_id s + 1) v = (Envelope True ?kept, ?kept)"
    by (simp add: getUpdates_def)
  show ?case
  proof (cases "dispatch_updates pm ?kept ?s0 d")
    case (Inl x)
    with Suc.prems have x: "x = (e, s1)" and v1: "v1 = ?kept"
      by (auto simp: answer Let_def split: prod.splits)
    from dispatch_updates_fail [OF Inl [unfolded x]] obtain bf u rest where
      "?kept = bf @ u # rest" "upd_message u \<noteq> None"
      "trace s1 = trace ?s0 @ cycle_events bf @ [Advanced (upd_id u), Dispatched (upd_id u)]"
      "last_update_id s1 = upd_id u" by blast
    then have "u \<in> set v1 \<and> upd_id u = last_update_id s1 \<and> upd_message u \<noteq> None \<and>
      last (trace s1) = Dispatched (upd_id u)"
      unfolding v1 by simp
    then show ?thesis by blast
  next
    case (Inr y)
    obtain s2 d2 where y: "y = (s2, d2)" by (cases y)
    with Inr Suc.prems have "monitor_loop pm getUpdates n (log_event Slept s2) ?kept d2 = Inl (e, s1, v1)"
      by (simp add: answer Let_def)
    from Suc.IH [OF this] show ?thesis .
  qed
qed

lemma getUpdates_hands_out_again:
  "u \<in> set held \<Longrightarrow> 1 \<le> upd_id u \<Longrightarrow>
   \<exists>us. getUpdates (last_update_id \<lparr>last_update_id = 0, trace = []\<rparr> + 1) held = (Envelope True us, us)
        \<and> u \<in> set us"
  by (simp add: getUpdates_def)

text \<open>
  C4. The first half holds: in the \<^verbatim>\<open>for\<close> loop the offset is assigned before the dispatch,
  update by update in the order received (lemmas \<open>dispatch_updates_ok\<close> and
  \<open>dispatch_updates_fail\<close>). The consequence does not: a dispatch that raises ends
  \<^verbatim>\<open>start_monitoring\<close>, so no request with the advanced offset is ever sent and the
  platform still holds the update (lemma \<open>getUpdates_failed_update_held\<close>); the next call
  starts at offset 1 again and is handed the same update (lemma
  \<open>getUpdates_hands_out_again\<close>). On the file as it is, the run below ends at update 8,
  the first one with a message, with the offset at 8 and all three updates still held;
  the first request of the next run, offset 1, is answered with them again.
\<close>

theorem failed_dispatch_requested_again:
  "start_monitoring (process_message raising_store_user epoch_format) getUpdates 3
      sample_updates (init_database None)
     = Inl (AttributeError ''store_user_data'',
            \<lparr>last_update_id = 8, trace = [Requested 1, Advanced 7, Advanced 8, Dispatched 8]\<rparr>,
            sample_updates)
   \<and> getUpdates 1 sample_updates = (Envelope True sample_updates, sample_updates)"
  by (simp add: start_monitoring_def getUpdates_def sample_updates_def log_event_def
      process_message_def raising_store_user_def triad_present_def truthy_def text_message_def
      chat_of_def user_of_def group_chat_def sender_def numeral_3_eq_3)

text \<open>
  C5. A network error (\<^verbatim>\<open>session.get\<close> raises), a body that is not JSON
  (\<^verbatim>\<open>response.json()\<close> raises) and a body that parses to \<^verbatim>\<open>null\<close> (\<^verbatim>\<open>data.get\<close> raises) each
  end \<^verbatim>\<open>start_monitoring\<close> in the first cycle: there is no retry, the second response of
  the script is never asked for, and the trace holds the one request.
\<close>

theorem transport_exception_ends_monitoring:
  "start_monitoring (process_message (store_user_data ''T1'') epoch_format) scripted 2
      [GetRaises ConnectionError, Envelope True sample_updates] (init_database None)
     = Inl (ConnectionError, \<lparr>last_update_id = 0, trace = [Requested 1]\<rparr>,
            [Envelope True sample_updates])
   \<and> start_monitoring (process_message (store_user_data ''T1'') epoch_format) scripted 2
      [JsonRaises, Envelope True sample_updates] (init_database None)
     = Inl (JSONDecodeError, \<lparr>last_update_id = 0, trace = [Requested 1]\<rparr>,
            [Envelope True sample_updates])
   \<and> start_monitoring (process_message (store_user_data ''T1'') epoch_format) scripted 2
      [NonObject, Envelope True sample_updates] (init_database None)
     = Inl (AttributeError ''get'', \<lparr>last_update_id = 0, trace = [Requested 1]\<rparr>,
            [Envelope True sample_updates])"
  by (simp add: start_monitoring_def scripted_def log_event_def numeral_2_eq_2)

subsection \<open>Username search\<close>

lemma like_percent: "like (CHR ''%'' # ps) t \<longleftrightarrow> (\<exists>k\<le>length t. like ps (drop k t))"
proof (induction t)
  case Nil
  then show ?case by simp
next
  case (Cons c cs)
  have "(\<exists>k\<le>length (c # cs). like ps (drop k (c # cs)))
        \<longleftrightarrow> like ps (c # cs) \<or> (\<exists>k\<le>length cs. like ps (drop k cs))"
  proof
    assume "\<exists>k\<le>length (c # cs). like ps (drop k (c # cs))"
    then obtain k where k: "k \<le> length (c # cs)" "like ps (drop k (c # cs))" by blast
    show "like ps (c # cs) \<or> (\<exists>k\<le>length cs. like ps (drop k cs))"
    proof (cases k)
      case 0
      with k show ?thesis by simp
    next
      case (Suc j)
      with k have "j \<le> length cs \<and> like ps (drop j cs)" by simp
      then show ?thesis by blast
    qed
  next
    assume "like ps (c # cs) \<or> (\<exists>k\<le>length cs. like ps (drop k cs))"
    then show "\<exists>k\<le>length (c # cs). like ps (drop k (c # cs))"
    proof
      assume "like ps (c # cs)"
      then have "0 \<le> length (c # cs) \<and> like ps (drop 0 (c # cs))" by simp
      then show ?thesis by blast
    next
      assume "\<exists>k\<le>length cs. like ps (drop k cs)"
      then obtain k where "k \<le> length cs" "like ps (drop k cs)" by blast
      then have "Suc k \<le> length (c # cs) \<and> like ps (drop (Suc k) (c # cs))" by simp
      then show ?thesis by blast
    qed
  qed
  with Cons show ?case by simp
qed

lemma like_literal:
  "wildcard_free q \<Longrightarrow>
   like (q @ ps) t \<longleftrightarrow>
     (length q \<le> length t \<and> map ascii_lower (take (length q) t) = map ascii_lower q
      \<and> like ps (drop (length q) t))"
proof (induction q arbitrary: t)
  case Nil
  then show ?case by simp
next
  case (Cons p q)
  then have w: "wildcard_free q" and p: "p \<noteq> CHR ''%''" "p \<noteq> CHR ''_''"
    by (auto simp: wildcard_free_def)
  show ?case
  proof (cases t)
    case Nil
    with p show ?thesis by simp
  next
    case (Cons c cs)
    with p Cons.IH [OF w, of cs] show ?thesis by auto
  qed
qed

lemma like_any: "like ''%'' t"
  using like_percent [of "[]" t] by auto

lemma sublist_take_drop:
  "sublist xs ys \<longleftrightarrow> (\<exists>k. k + length xs \<le> length ys \<and> take (length xs) (drop k ys) = xs)"
proof
  assume "sublist xs ys"
  then obtain ps ss where "ys = ps @ xs @ ss" by (auto simp: sublist_def)
  then have "length ps + length xs \<le> length ys \<and> take (length xs) (drop (length ps) ys) = xs"
    by simp
  then show "\<exists>k. k + length xs \<le> length ys \<and> take (length xs) (drop k ys) = xs" by blast
next
  assume "\<exists>k. k + length xs \<le> length ys \<and> take (length xs) (drop k ys) = xs"
  then obtain k where k: "k + length xs \<le> length ys" "take (length xs) (drop k ys) = xs" by blast
  have a: "take k ys @ drop k ys = ys" by (rule append_take_drop_id)
  have b: "take (length xs) (drop k ys) @ drop (length xs) (drop k ys) = drop k ys"
    by (rule append_take_drop_id)
  from a b k(2) have "ys = take k ys @ xs @ drop (length xs) (drop k ys)" by metis
  then show "sublist xs ys" unfolding sublist_def by blast
qed

lemma like_substring:
  assumes "wildcard_free q"
  shows "like (''%'' @ q @ ''%'') t \<longleftrightarrow> sublist (map ascii_lower q) (map ascii_lower t)"
proof -
  have "like (''%'' @ q @ ''%'') t \<longleftrightarrow> (\<exists>k\<le>length t. like (q @ ''%'') (drop k t))"
    using like_percent [of "q @ ''%''" t] by simp
  also have "\<dots> \<longleftrightarrow> (\<exists>k\<le>length t. length q \<le> length (drop k t)
       \<and> map ascii_lower (take (length q) (drop k t)) = map ascii_lower q)"
    using like_literal [OF assms, of "''%''"] like_any by simp
  also have "\<dots> \<longleftrightarrow> (\<exists>k. k + length q \<le> length t
       \<and> take (length q) (drop k (map ascii_lower t)) = map ascii_lower q)"
  proof
    assume "\<exists>k\<le>length t. length q \<le> length (drop k t)
       \<and> map ascii_lower (take (length q) (drop k t)) = map ascii_lower q"
    then obtain k where "k \<le> length t" "length q \<le> length (drop k t)"
      "map ascii_lower (take (length q) (drop k t)) = map ascii_lower q" by blast
    then have "k + length q \<le> length t
       \<and> take (length q) (drop k (map ascii_lower t)) = map ascii_lower q"
      by (simp add: take_map drop_map)
    then show "\<exists>k. k + length q \<le> length t
       \<and> take (length q) (drop k (map ascii_lower t)) = map ascii_lower q" by blast
  next
    assume "\<exists>k. k + length q \<le> length t
       \<and> take (length q) (drop k (map ascii_lower t)) = map ascii_lower q"
    then obtain k where "k + length q \<le> length t"
      "take (length q) (drop k (map ascii_lower t)) = map ascii_lower q" by blast
    then have "k \<le> length t \<and> length q \<le> length (drop k t)
       \<and> map ascii_lower (take (length q) (drop k t)) = map ascii_lower q"
      by (simp add: take_map drop_map)
    then show "\<exists>k\<le>length t. length q \<le> length (drop k t)
       \<and> map ascii_lower (take (length q) (drop k t)) = map ascii_lower q" by blast
  qed
  also have "\<dots> \<longleftrightarrow> sublist (map ascii_lower q) (map ascii_lower t)"
    using sublist_take_drop [of "map ascii_lower q" "map ascii_lower t"] by simp
  finally show ?thesis .
qed

lemma sql_like_contains:
  "wildcard_free q \<Longrightarrow> sql_like x (''%'' @ q @ ''%'') = contains_ci x q"
  using like_substring [of q] by (simp add: sql_like_def contains_ci_def split: option.splits)

lemma sql_like_contains_Cons:
  "wildcard_free q \<Longrightarrow> sql_like x (CHR ''%'' # q @ ''%'') = contains_ci x q"
  using sql_like_contains [of q x] by simp

lemma history_join_set:
  "(u, uh) \<in> set (history_join d) \<longleftrightarrow>
     u \<in> set (users d) \<and>
     (case uh of
        None \<Rightarrow> filter (\<lambda>h. h_user_id h = Some (u_user_id u)) (username_history d) = []
      | Some h \<Rightarrow> h \<in> set (username_history d) \<and> h_user_id h = Some (u_user_id u))"
proof -
  have row: "\<And>v hs. (u, uh) \<in> set (case hs of [] \<Rightarrow> [(v, None)]
                                   | x # xs \<Rightarrow> map (\<lambda>h. (v, Some h)) (x # xs))
        \<longleftrightarrow> u = v \<and> (case uh of None \<Rightarrow> hs = [] | Some h \<Rightarrow> h \<in> set hs)"
    subgoal for v hs by (cases hs; cases uh) auto
    done
  show ?thesis
    unfolding history_join_def set_concat set_map
    by (auto simp: row split: option.splits)
qed

lemma search_usernames_set:
  assumes "wildcard_free q"
  shows "set (search_usernames q d) =
     {(u_user_id u, u_first_name u, u_current_username u) | u.
        u \<in> set (users d) \<and>
        (contains_ci (u_current_username u) q \<or>
         (\<exists>h \<in> set (username_history d).
            h_user_id h = Some (u_user_id u) \<and> contains_ci (h_username h) q))}"
    (is "?L = ?R")
proof
  show "?L \<subseteq> ?R"
  proof
    fix x assume "x \<in> ?L"
    then obtain u uh where j: "(u, uh) \<in> set (history_join d)"
      and x: "x = (u_user_id u, u_first_name u, u_current_username u)"
      and m: "contains_ci (u_current_username u) q \<or> contains_ci (uh_username uh) q"
      by (auto simp: search_usernames_def sql_like_contains_Cons [OF assms])
    from j have u: "u \<in> set (users d)" by (simp add: history_join_set)
    from m have "contains_ci (u_current_username u) q \<or>
         (\<exists>h \<in> set (username_history d).
            h_user_id h = Some (u_user_id u) \<and> contains_ci (h_username h) q)"
    proof
      assume "contains_ci (u_current_username u) q" then show ?thesis by simp
    next
      assume c: "contains_ci (uh_username uh) q"
      then obtain h where "uh = Some h" by (cases uh) (auto simp: uh_username_def contains_ci_def)
      with j c show ?thesis by (auto simp: history_join_set uh_username_def)
    qed
    with u x show "x \<in> ?R" by blast
  qed
next
  show "?R \<subseteq> ?L"
  proof
    fix x assume "x \<in> ?R"
    then obtain u where u: "u \<in> set (users d)"
      and x: "x = (u_user_id u, u_first_name u, u_current_username u)"
      and m: "contains_ci (u_current_username u) q \<or>
         (\<exists>h \<in> set (username_history d).
            h_user_id h = Some (u_user_id u) \<and> contains_ci (h_username h) q)" by blast
    have "\<exists>uh. (u, uh) \<in> set (history_join d) \<and>
        (contains_ci (u_current_username u) q \<or> contains_ci (uh_username uh) q)"
      using m
    proof
      assume c: "contains_ci (u_current_username u) q"
      show ?thesis
      proof (cases "filter (\<lambda>h. h_user_id h = Some (u_user_id u)) (username_history d)")
        case Nil
        with u have "(u, None) \<in> set (history_join d)" by (simp add: history_join_set)
        with c show ?thesis by blast
      next
        case (Cons h hs)
        then have "h \<in> set (filter (\<lambda>h. h_user_id h = Some (u_user_id u)) (username_history d))"
          by simp
        with u have "(u, Some h) \<in> set (history_join d)" by (simp add: history_join_set)
        with c show ?thesis by blast
      qed
    next
      assume "\<exists>h \<in> set (username_history d).
            h_user_id h = Some (u_user_id u) \<and> contains_ci (h_username h) q"
      then obtain h where h: "h \<in> set (username_history d)" "h_user_id h = Some (u_user_id u)"
        "contains_ci (h_username h) q" by blast
      with u have "(u, Some h) \<in> set (history_join d)" by (simp add: history_join_set)
      with h(3) show ?thesis by (auto simp: uh_username_def)
    qed
    then obtain uh where "(u, uh) \<in> set (history_join d)"
        "contains_ci (u_current_username u) q \<or> contains_ci (uh_username uh) q" by blast
    with x show "x \<in> ?L"
      by (force simp: search_usernames_def sql_like_contains_Cons [OF assms])
  qed
qed

text \<open>
  C6, as the code has it. For a query that contains neither \<^verbatim>\<open>%\<close> nor \<^verbatim>\<open>_\<close>, the result of
  \<^verbatim>\<open>search_usernames\<close> has no duplicates and holds exactly the triples
  \<open>(user_id, first_name, current_username)\<close> of the users whose current username, or
  one of whose history usernames, contains the query as a substring up to the case of
  ASCII letters; the triple always shows the current username.
\<close>

theorem search_usernames_substring:
  assumes "wildcard_free q"
  shows "distinct (search_usernames q d) \<and>
     set (search_usernames q d) =
       {(u_user_id u, u_first_name u, u_current_username u) | u.
          u \<in> set (users d) \<and>
          (contains_ci (u_current_username u) q \<or>
           (\<exists>h \<in> set (username_history d).
              h_user_id h = Some (u_user_id u) \<and> contains_ci (h_username h) q))}"
  using search_usernames_set [OF assms, of d] by (simp add: search_usernames_def)

theorem search_usernames_substring_witness:
  "wildcard_free ''OB''
   \<and> \<not> contains_ci (Some ''carol'') ''OB''
   \<and> search_usernames ''OB'' renamed_db = [(1, Some ''Al'', Some ''carol'')]
   \<and> {(u_user_id u, u_first_name u, u_current_username u) | u.
          u \<in> set (users renamed_db) \<and>
          (contains_ci (u_current_username u) ''OB'' \<or>
           (\<exists>h \<in> set (username_history renamed_db).
              h_user_id h = Some (u_user_id u) \<and> contains_ci (h_username h) ''OB''))}
     = {(1, Some ''Al'', Some ''carol'')}"
proof -
  have w: "wildcard_free ''OB''" by (simp add: wildcard_free_def)
  have n: "\<not> contains_ci (Some ''carol'') ''OB''" by code_simp
  have e: "search_usernames ''OB'' renamed_db = [(1, Some ''Al'', Some ''carol'')]" by code_simp
  from search_usernames_substring [OF w, of renamed_db] e w n show ?thesis by simp
qed

text \<open>
  C6 as stated fails for a query with a wildcard: \<^verbatim>\<open>c_r\<close> is a substring of none of the
  names of user 1 (current \<^verbatim>\<open>carol\<close>, history \<^verbatim>\<open>bob\<close> and \<^verbatim>\<open>carol\<close>), and the user is
  returned, because \<^verbatim>\<open>_\<close> in a \<^verbatim>\<open>LIKE\<close> pattern matches any one character.
\<close>

theorem search_usernames_wildcard:
  "search_usernames ''c_r'' renamed_db = [(1, Some ''Al'', Some ''carol'')]
   \<and> \<not> contains_ci (Some ''carol'') ''c_r''
   \<and> \<not> contains_ci (Some ''bob'') ''c_r''"
  by code_simp

subsection \<open>User activity\<close>

lemma store_user_data_activity:
  "store_user_data now u d = Inr d' \<Longrightarrow> user_activity d' = user_activity d"
  by (auto simp: store_user_data_def Let_def split: option.splits if_splits)

lemma process_message_activity:
  assumes "\<forall>u x y. su u x = Inr y \<longrightarrow> user_activity y = user_activity x"
    and "process_message su fmt m d = Inr d'"
  shows "user_activity d' = user_activity d"
  using assms
  by (auto simp: process_message_def store_message_data_frame split: if_splits sum.splits)

lemma process_all_activity:
  assumes "\<forall>now u x y. su now u x = Inr y \<longrightarrow> user_activity y = user_activity x"
  shows "process_all su fmt ms d = Inr d' \<Longrightarrow> user_activity d' = user_activity d"
proof (induction ms arbitrary: d)
  case Nil
  then show ?case by simp
next
  case (Cons a ms)
  obtain now m where a: "a = (now, m)" by (cases a)
  with Cons.prems obtain d1 where p: "process_message (su now) fmt m d = Inr d1"
    and r: "process_all su fmt ms d1 = Inr d'"
    by (auto split: sum.splits)
  from assms have "\<forall>u x y. su now u x = Inr y \<longrightarrow> user_activity y = user_activity x" by blast
  from process_message_activity [OF this p] Cons.IH [OF r] show ?case by simp
qed

text \<open>
  C8. After the first message of user 1 in chat 100 there is no \<^verbatim>\<open>user_activity\<close> row for
  the pair. On the file as it is, \<^verbatim>\<open>process_message\<close> raises at line 433 and nothing is
  written; with \<^verbatim>\<open>store_user_data\<close> as the spec describes it the message is stored and the
  table \<^verbatim>\<open>user_activity\<close> is still empty, since no statement of the pipeline writes it
  (lemma \<open>process_all_activity\<close>).
\<close>

theorem first_message_no_activity_row:
  "process_all (\<lambda>now. raising_store_user) epoch_format
      [(''T1'', text_message 10 100 1 ''alice'' ''hello'')] (init_database None)
     = Inl (AttributeError ''store_user_data'')
   \<and> map_sum id user_activity
       (process_all store_user_data epoch_format
          [(''T1'', text_message 10 100 1 ''alice'' ''hello'')] (init_database None))
     = Inr []"
  by (simp add: process_message_def triad_present_def truthy_def text_message_def chat_of_def
      user_of_def group_chat_def sender_def store_user_data_def find_user_def init_database_def
      empty_db_def epoch_format_def store_message_data_def raising_store_user_def)

subsection \<open>The two class bodies of \<^verbatim>\<open>DatabaseManager\<close>\<close>

lemma class_bodies_agree:
  "init_database_first = init_database"
  "store_message_data_first = store_message_data"
  "search_usernames_first = search_usernames"
  "get_user_messages_first = get_user_messages"
  "get_username_history_first uid d = Inr (get_username_history_sql uid d)"
  by (auto simp: fun_eq_iff init_database_first_def init_database_def
      store_message_data_first_def store_message_data_def
      search_usernames_first_def search_usernames_def
      get_user_messages_first_def get_user_messages_def
      get_username_history_first_def get_username_history_sql_def)

text \<open>
  C9. The method \<^verbatim>\<open>get_username_history\<close> of the first class body returns the history of
  the user, newest first; the method of the same name that the second class body ends up
  with raises \<^verbatim>\<open>AttributeError\<close> on the same input.
\<close>

theorem get_username_history_shadowed:
  "get_username_history_first 1 renamed_db
     = Inr [(Some ''carol'', Some ''T3''), (Some ''bob'', Some ''T2'')]
   \<and> get_username_history 1 renamed_db = Inl (AttributeError ''db_manager'')"
  by code_simp

end
